theory Spec2Isabelle
  imports Main "HOL-Library.Word"
begin

unbundle bit_operations_syntax

section \<open>The IR on/off controller (IRonoff.ino)\<close>

text \<open>
  The sketch runs on an 8-bit AVR board (the pin comments of the source name the
  ATmega ports). Its data model there: \<open>unsigned int\<close> has 16 bits,
  \<open>unsigned long\<close> has 32 bits, and \<open>double\<close> is the IEEE binary32 format.
  Values of type \<open>int\<close> in the source (the ternary result of \<open>compare\<close>, the loop
  counter, \<open>relayStatus\<close>) stay far from their 16-bit range and are modelled as
  unbounded integers.
\<close>

type_synonym uint = "16 word"
type_synonym ulong = "32 word"
type_synonym byte = "8 word"

subsection \<open>Constants of the sketch\<close>

definition RELAY_PIN :: nat where "RELAY_PIN = 2"
definition IR_PIN :: nat where "IR_PIN = 5"
definition MEMORY_TIME_PIN :: nat where "MEMORY_TIME_PIN = 7"
definition MEMORY_CODE_PIN :: nat where "MEMORY_CODE_PIN = 8"
definition STATUS_LED :: nat where "STATUS_LED = 13"

definition ADDR_CODE :: nat where "ADDR_CODE = 0"
definition ADDR_TIME :: nat where "ADDR_TIME = 100"

definition MAX_TIME :: uint where "MAX_TIME = 10000"
definition DEFAULT_TIME :: uint where "DEFAULT_TIME = 5000"

definition FNV_PRIME_32 :: ulong where "FNV_PRIME_32 = 16777619"
definition FNV_BASIS_32 :: ulong where "FNV_BASIS_32 = 2166136261"

definition HIGH :: bool where "HIGH = True"
definition LOW :: bool where "LOW = False"

subsection \<open>The floating-point product in \<open>compare\<close>\<close>

text \<open>
  \<open>compare\<close> evaluates \<open>newval < oldval * .8\<close> in floating point: both operands are
  converted to binary32 (exactly, a 16-bit value has at most 16 significant bits), the
  literal \<open>.8\<close> is the binary32 number \<open>13421773 / 2^24\<close>, and the product is rounded to
  24 significant bits, to nearest, ties to even. The model holds every binary32 value
  scaled by \<open>2^24\<close>, as a natural number.
\<close>

fun sigbits :: "nat \<Rightarrow> nat" where
  "sigbits n = (if n = 0 then 0 else Suc (sigbits (n div 2)))"

declare sigbits.simps [simp del]

definition round24 :: "nat \<Rightarrow> nat" where
  "round24 p =
     (let b = sigbits p in
      if b \<le> 24 then p
      else let s = b - 24; q = p div 2 ^ s; r = p mod 2 ^ s; h = 2 ^ (s - 1)
           in (if h < r \<or> (r = h \<and> odd q) then q + 1 else q) * 2 ^ s)"

definition POINT8 :: nat where "POINT8 = 13421773"

definition to_float :: "uint \<Rightarrow> nat" where
  "to_float x = unat x * 2 ^ 24"

definition times_point8 :: "uint \<Rightarrow> nat" where
  "times_point8 x = round24 (unat x * POINT8)"

subsection \<open>Signal fingerprinting\<close>

definition compare :: "uint \<Rightarrow> uint \<Rightarrow> int" where
  "compare oldval newval =
     (if to_float newval < times_point8 oldval then 0
      else if to_float oldval < times_point8 newval then 2
      else 1)"

text \<open>
  \<open>decode_results\<close> is the capture record of the IRremote library. The library fills
  \<open>rawbuf\<close> and reports in \<open>rawlen\<close> how many entries it filled; the model keeps exactly
  those entries, so \<open>rawlen\<close> is the length of the list and every read of the loop
  below (\<open>i + 2 < rawlen\<close>) is inside it.
\<close>

record decode_results =
  rawbuf :: "uint list"

definition rawlen :: "decode_results \<Rightarrow> int" where
  "rawlen results = int (length (rawbuf results))"

function decodeHash_loop :: "decode_results \<Rightarrow> int \<Rightarrow> ulong \<Rightarrow> ulong" where
  "decodeHash_loop results i hash =
     (if i + 2 < rawlen results
      then let value = compare (rawbuf results ! nat i) (rawbuf results ! nat (i + 2))
           in decodeHash_loop results (i + 1) ((hash * FNV_PRIME_32) XOR word_of_int value)
      else hash)"
  by pat_completeness auto
termination
  by (relation "measure (\<lambda>(results, i, hash). nat (rawlen results - i))") auto

declare decodeHash_loop.simps [simp del]

definition decodeHash :: "decode_results \<Rightarrow> ulong" where
  "decodeHash results = decodeHash_loop results 1 FNV_BASIS_32"

text \<open>
  The fingerprint as the specification words it: fold the symbols of the indices
  \<open>1 .. L - 3\<close> into the FNV basis.
\<close>

definition fingerprint_spec :: "uint list \<Rightarrow> ulong" where
  "fingerprint_spec seq =
     fold (\<lambda>i hash. (hash * 16777619) XOR word_of_int (compare (seq ! i) (seq ! (i + 2))))
          [1 ..< length seq - 2] 2166136261"

subsection \<open>Persistence\<close>

text \<open>
  Modelled from the spec: the header EEPROMWriteAnything.h, which declares
  \<open>EEPROM_readAnything\<close> and \<open>EEPROM_writeAnything\<close>, is not among the sources. The
  specification describes the byte store as byte-addressed, holding each value raw and
  fixed-width at its offset, so that the value written is the value read back. The model
  stores and loads the bytes of a value in the byte order of the target, lowest byte
  first.
\<close>

type_synonym byte_store = "nat \<Rightarrow> byte"

definition EEPROM_writeAnything :: "nat \<Rightarrow> 'a::len word \<Rightarrow> byte_store \<Rightarrow> byte_store" where
  "EEPROM_writeAnything ee v rom =
     fold (\<lambda>i m. m(ee + i := ucast (drop_bit (8 * i) v))) [0 ..< LENGTH('a) div 8] rom"

text \<open>
  Modelled from the spec: \<open>EEPROM_readAnything\<close> of the same missing header, the
  \<open>read_at(offset, width)\<close> of the byte store.
\<close>

definition EEPROM_readAnything :: "nat \<Rightarrow> byte_store \<Rightarrow> 'a::len word" where
  "EEPROM_readAnything ee rom =
     fold (\<lambda>i v. v OR push_bit (8 * i) (ucast (rom (ee + i)))) [0 ..< LENGTH('a) div 8] 0"

subsection \<open>Controller state and its environment\<close>

text \<open>
  The calls into the board library that leave no value behind are kept as a trace, in
  the order they happen.
\<close>

datatype event =
    EnableIRIn
  | PinMode nat bool
  | DigitalWrite nat bool
  | Delay nat
  | SerialBegin nat
  | SerialPrint string
  | SerialPrintlnHex ulong
  | Resume

text \<open>
  The globals of the sketch, the byte store, the level of every output pin and the
  trace.
\<close>

record controller =
  storedCode :: ulong
  storedTime :: uint
  timeMs :: ulong
  codeMs :: ulong
  relayStatus :: int
  eeprom :: byte_store
  pins :: "nat \<Rightarrow> bool"
  trace :: "event list"

text \<open>
  What one pass of \<open>loop\<close> reads from outside: the levels of the two buttons, the
  answer of \<open>irrecv.decode\<close> (a capture when a transmission is complete), and the
  value of each call of \<open>millis()\<close>, named by its line in the source. The readings of
  the clock are not related to each other, so every statement below holds for any
  clock, wrapping included.
\<close>

record readings =
  time_pin :: bool
  code_pin :: bool
  irrecv_decode :: "decode_results option"
  millis_229 :: ulong
  millis_233 :: ulong
  millis_254 :: ulong
  millis_260 :: ulong
  millis_275 :: ulong
  millis_279 :: ulong

definition pinMode :: "nat \<Rightarrow> bool \<Rightarrow> controller \<Rightarrow> controller" where
  "pinMode pin output s = s\<lparr>trace := trace s @ [PinMode pin output]\<rparr>"

definition digitalWrite :: "nat \<Rightarrow> bool \<Rightarrow> controller \<Rightarrow> controller" where
  "digitalWrite pin level s =
     s\<lparr>pins := (pins s)(pin := level), trace := trace s @ [DigitalWrite pin level]\<rparr>"

definition delay :: "nat \<Rightarrow> controller \<Rightarrow> controller" where
  "delay ms s = s\<lparr>trace := trace s @ [Delay ms]\<rparr>"

definition emit :: "event \<Rightarrow> controller \<Rightarrow> controller" where
  "emit e s = s\<lparr>trace := trace s @ [e]\<rparr>"

text \<open>\<open>!x\<close> of C on an \<open>int\<close>.\<close>

definition lnot :: "int \<Rightarrow> int" where
  "lnot x = (if x = 0 then 1 else 0)"

subsection \<open>The functions of the sketch\<close>

text \<open>The function \<open>setup\<close> of the sketch (the name is taken in Isabelle).\<close>

definition setup_sketch :: "controller \<Rightarrow> controller" where
  "setup_sketch s =
     (let s = emit EnableIRIn s;
          s = pinMode MEMORY_TIME_PIN False s;
          s = pinMode MEMORY_CODE_PIN False s;
          s = pinMode RELAY_PIN True s;
          s = pinMode STATUS_LED True s;
          s = digitalWrite MEMORY_TIME_PIN HIGH s;
          s = digitalWrite MEMORY_CODE_PIN HIGH s;
          s = s\<lparr>storedCode := EEPROM_readAnything ADDR_CODE (eeprom s)\<rparr>;
          s = s\<lparr>storedTime := EEPROM_readAnything ADDR_TIME (eeprom s)\<rparr>;
          s = (if storedTime s = 0 \<or> storedTime s > MAX_TIME
               then s\<lparr>storedTime := DEFAULT_TIME\<rparr> else s)
      in emit (SerialBegin 9600) s)"

definition blink :: "controller \<Rightarrow> controller" where
  "blink s =
     (let s = digitalWrite STATUS_LED HIGH s;
          s = delay 200 s;
          s = digitalWrite STATUS_LED LOW s
      in delay 200 s)"

text \<open>The calls one \<open>blink\<close> makes.\<close>

definition blink_events :: "event list" where
  "blink_events =
     [DigitalWrite STATUS_LED HIGH, Delay 200, DigitalWrite STATUS_LED LOW, Delay 200]"

definition saveTimeout :: "uint \<Rightarrow> controller \<Rightarrow> controller" where
  "saveTimeout newTime s =
     (let (newTime, s) = (if newTime > MAX_TIME then (1000, blink s) else (newTime, s));
          s = blink s;
          s = s\<lparr>eeprom := EEPROM_writeAnything ADDR_TIME newTime (eeprom s)\<rparr>
      in s\<lparr>storedTime := newTime\<rparr>)"

text \<open>Lines 226 to 234 of \<open>loop\<close>: the timeout button.\<close>

definition increase_timeout :: "readings \<Rightarrow> controller \<Rightarrow> controller" where
  "increase_timeout inp s =
     (if time_pin inp = LOW
      then let s = (if millis_229 inp - timeMs s > 1000
                    then saveTimeout (storedTime s + 1000) s else s)
           in s\<lparr>timeMs := millis_233 inp\<rparr>
      else s)"

text \<open>
  Lines 243 to 272 of \<open>loop\<close>, with the hash of the capture in hand. The source also
  sets a local \<open>saveMode\<close> to 1 in the learn branch; nothing reads it afterwards, so it
  has no counterpart here.
\<close>

definition handle_code :: "ulong \<Rightarrow> readings \<Rightarrow> controller \<Rightarrow> controller" where
  "handle_code hash inp s =
     (let s = (if code_pin inp = LOW
               then blink (s\<lparr>eeprom := EEPROM_writeAnything ADDR_CODE hash (eeprom s),
                             storedCode := hash\<rparr>)
               else s);
          s = (if storedCode s = hash
               then let s = (if millis_254 inp - codeMs s > 250 \<and> relayStatus s = 0
                             then let s = digitalWrite RELAY_PIN HIGH s;
                                      s = digitalWrite STATUS_LED HIGH s
                                  in s\<lparr>relayStatus := lnot (relayStatus s)\<rparr>
                             else s)
                    in s\<lparr>codeMs := millis_260 inp\<rparr>
               else s);
          s = emit (SerialPrint ''Stored Code: '') s;
          s = emit (SerialPrintlnHex (storedCode s)) s;
          s = emit (SerialPrint ''Received Code: '') s;
          s = emit (SerialPrintlnHex hash) s
      in emit Resume s)"

text \<open>Lines 236 to 273 of \<open>loop\<close>: a transmission, when one is complete.\<close>

definition receive :: "readings \<Rightarrow> controller \<Rightarrow> controller" where
  "receive inp s =
     (case irrecv_decode inp of
        None \<Rightarrow> s
      | Some results \<Rightarrow> handle_code (decodeHash results) inp s)"

text \<open>Lines 275 to 281 of \<open>loop\<close>: the relay switches off by itself.\<close>

definition auto_off :: "readings \<Rightarrow> controller \<Rightarrow> controller" where
  "auto_off inp s =
     (if millis_275 inp - codeMs s > ucast (storedTime s) \<and> relayStatus s \<noteq> 0
      then let s = digitalWrite STATUS_LED LOW s;
               s = digitalWrite RELAY_PIN LOW s;
               s = s\<lparr>codeMs := millis_279 inp\<rparr>
           in s\<lparr>relayStatus := lnot (relayStatus s)\<rparr>
      else s)"

definition loop :: "readings \<Rightarrow> controller \<Rightarrow> controller" where
  "loop inp s = auto_off inp (receive inp (increase_timeout inp s))"

text \<open>The number of times a trace switches the status indicator on.\<close>

definition led_pulses :: "event list \<Rightarrow> nat" where
  "led_pulses tr = length (filter (\<lambda>e. e = DigitalWrite STATUS_LED HIGH) tr)"

text \<open>Any number of passes of \<open>loop\<close>, one set of readings for each.\<close>

definition run :: "readings list \<Rightarrow> controller \<Rightarrow> controller" where
  "run inps s = fold loop inps s"

text \<open>The Relay Timeout is in range: above 0 and at most the ceiling.\<close>

definition valid_timeout :: "controller \<Rightarrow> bool" where
  "valid_timeout s = (0 < storedTime s \<and> storedTime s \<le> MAX_TIME)"

subsection \<open>Concrete states and readings\<close>

text \<open>
  A capture of eight entries (in ticks of the receiver), a controller at rest with the
  default timeout, and the readings of a pass in which nothing happens.
\<close>

definition capture_A :: decode_results where
  "capture_A = \<lparr>rawbuf = [1000, 180, 90, 11, 11, 11, 34, 11]\<rparr>"

definition idle :: controller where
  "idle = \<lparr>storedCode = 0, storedTime = 5000, timeMs = 0, codeMs = 0, relayStatus = 0,
            eeprom = (\<lambda>a. 0), pins = (\<lambda>p. False), trace = []\<rparr>"

definition quiet :: readings where
  "quiet = \<lparr>time_pin = True, code_pin = True, irrecv_decode = None,
             millis_229 = 10000, millis_233 = 10000, millis_254 = 10000,
             millis_260 = 10000, millis_275 = 10000, millis_279 = 10000\<rparr>"

text \<open>
  The learn button is held while \<open>capture_A\<close> arrives; the clock readings after the
  acknowledging blink are 400 ms later than those before it.
\<close>

definition learn_A :: readings where
  "learn_A = quiet\<lparr>code_pin := False, irrecv_decode := Some capture_A,
                    millis_254 := 10400, millis_260 := 10400,
                    millis_275 := 10400, millis_279 := 10400\<rparr>"

text \<open>\<open>capture_A\<close> arrives with no button held.\<close>

definition send_A :: readings where
  "send_A = quiet\<lparr>irrecv_decode := Some capture_A\<rparr>"

text \<open>
  The controller has learned \<open>capture_A\<close>, the relay is off, and the last match was at
  9750 ms: exactly 250 ms before the readings of \<open>send_A\<close>.
\<close>

definition armed :: controller where
  "armed = idle\<lparr>storedCode := decodeHash capture_A, codeMs := 9750\<rparr>"

text \<open>The relay is on since the last match at 0 ms.\<close>

definition active :: controller where
  "active = idle\<lparr>relayStatus := 1, pins := (\<lambda>p. p = RELAY_PIN \<or> p = STATUS_LED)\<rparr>"

text \<open>The timeout button is held.\<close>

definition pressed :: readings where
  "pressed = quiet\<lparr>time_pin := False\<rparr>"

text \<open>
  A controller before the first run: the byte store still holds the erased value 255 in
  every cell.
\<close>

definition blank :: controller where
  "blank = idle\<lparr>storedTime := 0, eeprom := (\<lambda>a. 255)\<rparr>"

text \<open>
  The relay is on since a match 256 ms before the clock wrapped, and readings taken
  5000 ms after the wrap.
\<close>

definition active_before_wrap :: controller where
  "active_before_wrap = active\<lparr>codeMs := 4294967040\<rparr>"

definition late :: readings where
  "late = quiet\<lparr>millis_275 := 5000, millis_279 := 5001\<rparr>"

section \<open>Properties\<close>

subsection \<open>The comparison is exact on 16-bit operands\<close>

text \<open>
  The number of significant bits brackets its argument between two powers of two.
\<close>

lemma sigbits_upper: "n < 2 ^ sigbits n"
proof (induction n rule: sigbits.induct)
  case (1 n)
  show ?case
  proof (cases "n = 0")
    case True then show ?thesis by simp
  next
    case False
    then have "n div 2 < 2 ^ sigbits (n div 2)" using 1 by simp
    then have "n < 2 * 2 ^ sigbits (n div 2)" by linarith
    then show ?thesis using False by (subst sigbits.simps) simp
  qed
qed

lemma sigbits_lower: "0 < n \<Longrightarrow> 2 ^ (sigbits n - 1) \<le> n"
proof (induction n rule: sigbits.induct)
  case (1 n)
  show ?case
  proof (cases "n div 2 = 0")
    case True
    then have "sigbits (n div 2) = 0" by (simp add: sigbits.simps)
    then show ?thesis using 1(2) by (subst sigbits.simps) simp
  next
    case False
    then have ih: "2 ^ (sigbits (n div 2) - 1) \<le> n div 2" using 1 by simp
    have pos: "0 < sigbits (n div 2)" using False by (subst sigbits.simps) simp
    have "sigbits n = Suc (sigbits (n div 2))" using 1(2) by (subst sigbits.simps) simp
    then have "(2::nat) ^ (sigbits n - 1) = 2 * 2 ^ (sigbits (n div 2) - 1)"
      using pos by (cases "sigbits (n div 2)") simp_all
    then show ?thesis using ih by linarith
  qed
qed

lemma round24_small: "sigbits p \<le> 24 \<Longrightarrow> round24 p = p"
  by (simp add: round24_def)

lemma round24_cases:
  assumes "24 < sigbits p"
  obtains e q r where "0 < e" "2 ^ (sigbits p - 24) = 2 * e" "p = q * (2 * e) + r" "r < 2 * e"
     "(round24 p = q * (2 * e) \<and> r \<le> e) \<or> (round24 p = (q + 1) * (2 * e) \<and> e \<le> r)"
proof -
  define s where "s = sigbits p - 24"
  define e :: nat where "e = 2 ^ (s - 1)"
  define q where "q = p div 2 ^ s"
  define r where "r = p mod 2 ^ s"
  have spos: "0 < s" using assms by (simp add: s_def)
  have e2: "(2::nat) ^ s = 2 * e"
    using spos by (cases s) (simp_all add: e_def)
  have epos: "0 < e" by (simp add: e_def)
  have p: "p = q * (2 * e) + r" unfolding q_def r_def e2 [symmetric] by (rule div_mult_mod_eq [symmetric])
  have rlt: "r < 2 * e" unfolding r_def e2 [symmetric] by simp
  have rd: "round24 p = (if e < r \<or> (r = e \<and> odd q) then q + 1 else q) * (2 * e)"
    unfolding e2 [symmetric] unfolding e_def q_def r_def
    using assms by (simp add: round24_def Let_def s_def)
  have "(round24 p = q * (2 * e) \<and> r \<le> e) \<or> (round24 p = (q + 1) * (2 * e) \<and> e \<le> r)"
    unfolding rd by auto
  then show thesis
    using that [OF epos _ p rlt] e2 s_def by blast
qed

lemma POINT8_exact:
  assumes n: "n < 65536"
  shows "m * 16777216 < round24 (n * POINT8) \<longleftrightarrow> 5 * m < 4 * n"
proof (cases "sigbits (n * POINT8) \<le> 24")
  case True
  have "n * POINT8 < 2 ^ sigbits (n * POINT8)" by (rule sigbits_upper)
  also have "\<dots> \<le> 2 ^ 24" using True by (rule power_increasing) simp
  finally have "n * 13421773 < 16777216" by (simp add: POINT8_def)
  then have "n = 0 \<or> n = 1" by linarith
  then show ?thesis
    using True by (auto simp: round24_small POINT8_def)
next
  case False
  define p where "p = n * POINT8"
  have big: "24 < sigbits p" using False by (simp add: p_def)
  have five: "5 * p = 4 * n * 16777216 + n" by (simp add: p_def POINT8_def)
  have ppos: "0 < p" using big by (cases "p = 0") (simp_all add: sigbits.simps)
  obtain e q r where epos: "0 < e" and e2: "2 ^ (sigbits p - 24) = 2 * e"
    and pq: "p = q * (2 * e) + r" and rlt: "r < 2 * e"
    and rnd: "(round24 p = q * (2 * e) \<and> r \<le> e) \<or> (round24 p = (q + 1) * (2 * e) \<and> e \<le> r)"
    using round24_cases [OF big] by blast
  have split: "sigbits p - 1 = (sigbits p - 24) + 23" "sigbits p = (sigbits p - 24) + 24"
    using big by simp_all
  have "2 ^ (sigbits p - 1) \<le> p" using ppos by (rule sigbits_lower)
  then have lo: "2 * e * 8388608 \<le> p"
    by (subst (asm) split(1)) (simp add: power_add e2)
  have "p < 2 ^ sigbits p" by (rule sigbits_upper)
  then have hi: "p < 2 * e * 16777216"
    by (subst (asm) split(2)) (simp add: power_add e2)
  have e_lt_n: "e < n" using lo five epos by linarith
  have n_lt_4e: "n < 4 * e" using hi by (simp add: p_def POINT8_def)
  have "sigbits p - 24 \<le> 24"
  proof (rule ccontr)
    assume "\<not> sigbits p - 24 \<le> 24"
    then have "(2::nat) ^ 25 \<le> 2 ^ (sigbits p - 24)" by (intro power_increasing) simp_all
    then show False using e2 e_lt_n n by simp
  qed
  then obtain c where c: "(2::nat) ^ 24 = 2 ^ (sigbits p - 24) * c"
    by (metis le_add_diff_inverse power_add)
  define k where "k = m * c"
  have mk: "m * 16777216 = k * (2 * e)" using c by (simp add: k_def e2)
  show ?thesis
  proof
    assume lt: "m * 16777216 < round24 (n * POINT8)"
    show "5 * m < 4 * n"
    proof (rule ccontr)
      assume "\<not> 5 * m < 4 * n"
      then have ge: "5 * p \<le> 5 * (k * (2 * e)) + n" using five mk by linarith
      from rnd show False
      proof
        assume a: "round24 p = q * (2 * e) \<and> r \<le> e"
        then have "k * (2 * e) < q * (2 * e)" using lt mk by (simp add: p_def)
        then have "k < q" by simp
        then have "(k + 1) * (2 * e) \<le> q * (2 * e)" by (intro mult_le_mono1) simp
        then have "k * (2 * e) + 2 * e \<le> p" using pq by (simp add: algebra_simps)
        then show False using ge n_lt_4e by linarith
      next
        assume a: "round24 p = (q + 1) * (2 * e) \<and> e \<le> r"
        then have "k * (2 * e) < (q + 1) * (2 * e)" using lt mk by (simp add: p_def)
        then have "k < q + 1" by (rule mult_less_cancel2 [THEN iffD1, THEN conjunct2])
        then have "k * (2 * e) \<le> q * (2 * e)" by (intro mult_le_mono1) simp
        then have "k * (2 * e) + e \<le> p" using pq a by linarith
        then show False using ge n_lt_4e by linarith
      qed
    qed
  next
    assume "5 * m < 4 * n"
    then have "5 * (m * 16777216) + 16777216 \<le> 4 * n * 16777216" by linarith
    then have a: "5 * (m * 16777216) + 16777216 + n \<le> 5 * p" using five by linarith
    have "p \<le> round24 p + e"
      using rnd pq rlt by (auto simp: algebra_simps)
    then have "5 * (m * 16777216) < 5 * round24 p" using a e_lt_n n by linarith
    then show "m * 16777216 < round24 (n * POINT8)" by (simp add: p_def)
  qed
qed

lemma compare_exact:
  "compare oldval newval =
     (if 5 * unat newval < 4 * unat oldval then 0
      else if 5 * unat oldval < 4 * unat newval then 2 else 1)"
proof -
  have "unat oldval < 65536" "unat newval < 65536"
    using unsigned_less [of oldval, where 'a = nat] unsigned_less [of newval, where 'a = nat]
    by simp_all
  then show ?thesis
    by (simp add: compare_def to_float_def times_point8_def POINT8_exact)
qed

lemma POINT8_nearest: "5 * POINT8 = 4 * 2 ^ 24 + 1"
  by (simp add: POINT8_def)

text \<open>
  C9: for all unsigned inputs (positive ones included), \<open>compare\<close> returns exactly one
  of the values 0, 1 and 2, and \<open>compare a a = 1\<close>; it returns 0 exactly when the new
  value is below 0.8 times the old one and 2 exactly when the old value is below 0.8
  times the new one.
\<close>

theorem compare_consistent:
  "compare a b \<in> {0, 1, 2} \<and> compare a a = 1 \<and>
   (compare a b = 0 \<longleftrightarrow> 5 * unat b < 4 * unat a) \<and>
   (compare a b = 2 \<longleftrightarrow> 5 * unat a < 4 * unat b)"
  by (simp add: compare_exact)

text \<open>The three answers of \<open>compare\<close> on tick counts of a capture.\<close>

theorem compare_consistent_witness:
  "compare 180 90 = 0 \<and> compare 90 180 = 2 \<and> compare 11 11 = 1 \<and> compare 100 80 = 1"
  using compare_consistent [of 180 90] compare_consistent [of 90 180]
    compare_consistent [of 11 11] compare_consistent [of 100 80]
  by auto

subsection \<open>The byte store gives back what was written\<close>

lemma upt2: "[0..<2] = [0, 1]"
  by (simp add: upt_rec)

lemma upt4: "[0..<4] = [0, 1, 2, 3]"
  by (simp add: upt_rec)

lemma read_write_uint:
  "EEPROM_readAnything a (EEPROM_writeAnything a (v :: uint) rom) = v"
  by (simp add: EEPROM_readAnything_def EEPROM_writeAnything_def upt2)
     (rule bit_word_eqI, auto simp: bit_simps)

lemma read_write_ulong:
  "EEPROM_readAnything a (EEPROM_writeAnything a (v :: ulong) rom) = v"
proof -
  have "(((ucast (ucast v :: byte) OR push_bit 8 (ucast (ucast (drop_bit 8 v) :: byte)))
          OR push_bit 16 (ucast (ucast (drop_bit 16 v) :: byte)))
          OR push_bit 24 (ucast (ucast (drop_bit 24 v) :: byte))) = v"
  proof (rule bit_word_eqI)
    fix n assume "n < LENGTH(32)"
    then consider "n < 8" | "8 \<le> n" "n < 16" | "16 \<le> n" "n < 24" | "24 \<le> n" "n < 32"
      by fastforce
    then show "bit ((((ucast (ucast v :: byte) OR push_bit 8 (ucast (ucast (drop_bit 8 v) :: byte)))
          OR push_bit 16 (ucast (ucast (drop_bit 16 v) :: byte)))
          OR push_bit 24 (ucast (ucast (drop_bit 24 v) :: byte))) :: ulong) n = bit v n"
      by cases (auto simp: bit_simps)
  qed
  then show ?thesis
    by (simp add: EEPROM_readAnything_def EEPROM_writeAnything_def upt4)
qed

lemma read_time_write_code:
  "(EEPROM_readAnything ADDR_TIME (EEPROM_writeAnything ADDR_CODE (v :: ulong) rom) :: uint) =
   EEPROM_readAnything ADDR_TIME rom"
  by (simp add: EEPROM_readAnything_def EEPROM_writeAnything_def upt2 upt4 ADDR_TIME_def ADDR_CODE_def)

subsection \<open>The fingerprint\<close>

lemma decodeHash_loop_fold:
  "0 \<le> i \<Longrightarrow> decodeHash_loop results i hash =
     fold (\<lambda>i hash. (hash * 16777619) XOR word_of_int (compare (rawbuf results ! i) (rawbuf results ! (i + 2))))
          [nat i ..< length (rawbuf results) - 2] hash"
proof (induction results i hash rule: decodeHash_loop.induct)
  case (1 results i hash)
  show ?case
  proof (cases "i + 2 < rawlen results")
    case True
    then have lt: "nat i < length (rawbuf results) - 2"
      using 1(2) by (simp add: rawlen_def)
    have nx: "nat (i + 1) = Suc (nat i)" "nat (i + 2) = nat i + 2"
      using 1(2) by simp_all
    show ?thesis
      using 1(1) [OF True refl] 1(2) True
      by (subst decodeHash_loop.simps) (simp add: upt_conv_Cons [OF lt] nx FNV_PRIME_32_def Let_def)
  next
    case False
    then have "\<not> nat i < length (rawbuf results) - 2"
      using 1(2) by (simp add: rawlen_def)
    then show ?thesis
      using False by (subst decodeHash_loop.simps) simp
  qed
qed

text \<open>
  C2: for every pulse sequence of length \<open>L\<close>, \<open>decodeHash\<close> is the fold of the
  specification, from the FNV basis 2166136261 over the symbols of the indices 1 to
  \<open>L - 3\<close>, with the product wrapping at 32 bits; for \<open>L < 3\<close> it is the basis.
\<close>

theorem decodeHash_refines_spec:
  "decodeHash results = fingerprint_spec (rawbuf results) \<and>
   (length (rawbuf results) < 3 \<longrightarrow> decodeHash results = 2166136261)"
proof -
  have eq: "decodeHash results = fingerprint_spec (rawbuf results)"
    by (simp add: decodeHash_def fingerprint_spec_def decodeHash_loop_fold FNV_BASIS_32_def)
  have "length (rawbuf results) < 3 \<Longrightarrow> fingerprint_spec (rawbuf results) = 2166136261"
    by (simp add: fingerprint_spec_def)
  with eq show ?thesis by simp
qed

theorem decodeHash_refines_spec_witness:
  "length (rawbuf \<lparr>rawbuf = [180, 90]\<rparr>) < 3 \<and>
   decodeHash \<lparr>rawbuf = [180, 90]\<rparr> = 2166136261"
proof -
  have short: "length (rawbuf \<lparr>rawbuf = [180, 90]\<rparr>) < 3" by simp
  with decodeHash_refines_spec [of "\<lparr>rawbuf = [180, 90]\<rparr>"] show ?thesis by blast
qed

text \<open>The fingerprint of \<open>capture_A\<close>.\<close>

lemma decodeHash_capture_A: "decodeHash capture_A = 3926807169"
  by (simp add: decodeHash_def capture_A_def decodeHash_loop.simps rawlen_def FNV_BASIS_32_def FNV_PRIME_32_def compare_exact)

subsection \<open>What each function changes\<close>

lemma setup_fields:
  "storedCode (setup_sketch s) = EEPROM_readAnything ADDR_CODE (eeprom s)"
  "storedTime (setup_sketch s) =
     (let v = EEPROM_readAnything ADDR_TIME (eeprom s) in
      if v = 0 \<or> v > MAX_TIME then DEFAULT_TIME else v)"
  "eeprom (setup_sketch s) = eeprom s"
  "timeMs (setup_sketch s) = timeMs s"
  "codeMs (setup_sketch s) = codeMs s"
  "relayStatus (setup_sketch s) = relayStatus s"
  by (simp_all add: setup_sketch_def Let_def emit_def pinMode_def digitalWrite_def)

lemma blink_fields:
  "storedCode (blink s) = storedCode s"
  "storedTime (blink s) = storedTime s"
  "timeMs (blink s) = timeMs s"
  "codeMs (blink s) = codeMs s"
  "relayStatus (blink s) = relayStatus s"
  "eeprom (blink s) = eeprom s"
  "pins (blink s) = (pins s)(STATUS_LED := LOW)"
  "trace (blink s) = trace s @ [DigitalWrite STATUS_LED HIGH, Delay 200, DigitalWrite STATUS_LED LOW, Delay 200]"
  by (simp_all add: blink_def Let_def digitalWrite_def delay_def)

lemma saveTimeout_fields:
  "storedCode (saveTimeout n s) = storedCode s"
  "storedTime (saveTimeout n s) = (if n > MAX_TIME then 1000 else n)"
  "timeMs (saveTimeout n s) = timeMs s"
  "codeMs (saveTimeout n s) = codeMs s"
  "relayStatus (saveTimeout n s) = relayStatus s"
  "eeprom (saveTimeout n s) = EEPROM_writeAnything ADDR_TIME (if n > MAX_TIME then 1000 else n) (eeprom s)"
  "pins (saveTimeout n s) = (pins s)(STATUS_LED := LOW)"
  "trace (saveTimeout n s) = trace s @ (if n > MAX_TIME then [DigitalWrite STATUS_LED HIGH, Delay 200, DigitalWrite STATUS_LED LOW, Delay 200] else []) @ [DigitalWrite STATUS_LED HIGH, Delay 200, DigitalWrite STATUS_LED LOW, Delay 200]"
  by (simp_all add: saveTimeout_def Let_def blink_fields split: prod.splits)

lemma increase_timeout_fields:
  "storedCode (increase_timeout inp s) = storedCode s"
  "codeMs (increase_timeout inp s) = codeMs s"
  "relayStatus (increase_timeout inp s) = relayStatus s"
  "timeMs (increase_timeout inp s) = (if time_pin inp = LOW then millis_233 inp else timeMs s)"
  "storedTime (increase_timeout inp s) =
     (if time_pin inp = LOW \<and> millis_229 inp - timeMs s > 1000
      then (if storedTime s + 1000 > MAX_TIME then 1000 else storedTime s + 1000)
      else storedTime s)"
  "eeprom (increase_timeout inp s) =
     (if time_pin inp = LOW \<and> millis_229 inp - timeMs s > 1000
      then EEPROM_writeAnything ADDR_TIME
             (if storedTime s + 1000 > MAX_TIME then 1000 else storedTime s + 1000) (eeprom s)
      else eeprom s)"
  by (simp_all add: increase_timeout_def Let_def saveTimeout_fields)

lemma handle_code_fields:
  "storedTime (handle_code h inp s) = storedTime s"
  "timeMs (handle_code h inp s) = timeMs s"
  "storedCode (handle_code h inp s) = (if code_pin inp = LOW then h else storedCode s)"
  "eeprom (handle_code h inp s) =
     (if code_pin inp = LOW then EEPROM_writeAnything ADDR_CODE h (eeprom s) else eeprom s)"
  "codeMs (handle_code h inp s) =
     (if code_pin inp = LOW \<or> storedCode s = h then millis_260 inp else codeMs s)"
  "relayStatus (handle_code h inp s) =
     (if (code_pin inp = LOW \<or> storedCode s = h) \<and> millis_254 inp - codeMs s > 250
         \<and> relayStatus s = 0
      then 1 else relayStatus s)"
  "pins (handle_code h inp s) RELAY_PIN =
     (if (code_pin inp = LOW \<or> storedCode s = h) \<and> millis_254 inp - codeMs s > 250
         \<and> relayStatus s = 0
      then HIGH else pins s RELAY_PIN)"
  "pins (handle_code h inp s) STATUS_LED =
     (if (code_pin inp = LOW \<or> storedCode s = h) \<and> millis_254 inp - codeMs s > 250
         \<and> relayStatus s = 0
      then HIGH else if code_pin inp = LOW then LOW else pins s STATUS_LED)"
  by (simp_all add: handle_code_def Let_def blink_fields emit_def digitalWrite_def lnot_def
      RELAY_PIN_def STATUS_LED_def)

lemma handle_code_outputs:
  "pins (handle_code h inp s) =
     (let p = (if code_pin inp = LOW then (pins s)(STATUS_LED := LOW) else pins s) in
      if (code_pin inp = LOW \<or> storedCode s = h) \<and> millis_254 inp - codeMs s > 250
         \<and> relayStatus s = 0
      then p(RELAY_PIN := HIGH, STATUS_LED := HIGH) else p)"
  "trace (handle_code h inp s) =
     trace s @ (if code_pin inp = LOW then blink_events else []) @
     (if (code_pin inp = LOW \<or> storedCode s = h) \<and> millis_254 inp - codeMs s > 250
         \<and> relayStatus s = 0
      then [DigitalWrite RELAY_PIN HIGH, DigitalWrite STATUS_LED HIGH] else []) @
     [SerialPrint ''Stored Code: '',
      SerialPrintlnHex (if code_pin inp = LOW then h else storedCode s),
      SerialPrint ''Received Code: '', SerialPrintlnHex h, Resume]"
  by (simp_all add: handle_code_def Let_def blink_fields emit_def digitalWrite_def lnot_def
      blink_events_def)

lemma receive_fields:
  "storedTime (receive inp s) = storedTime s"
  "timeMs (receive inp s) = timeMs s"
  "(EEPROM_readAnything ADDR_TIME (eeprom (receive inp s)) :: uint) =
     EEPROM_readAnything ADDR_TIME (eeprom s)"
  by (simp_all add: receive_def handle_code_fields read_time_write_code split: option.splits)

lemma auto_off_fields:
  "storedTime (auto_off inp s) = storedTime s"
  "timeMs (auto_off inp s) = timeMs s"
  "storedCode (auto_off inp s) = storedCode s"
  "eeprom (auto_off inp s) = eeprom s"
  "relayStatus (auto_off inp s) =
     (if millis_275 inp - codeMs s > ucast (storedTime s) then 0 else relayStatus s)"
  "codeMs (auto_off inp s) =
     (if millis_275 inp - codeMs s > ucast (storedTime s) \<and> relayStatus s \<noteq> 0
      then millis_279 inp else codeMs s)"
  "pins (auto_off inp s) =
     (if millis_275 inp - codeMs s > ucast (storedTime s) \<and> relayStatus s \<noteq> 0
      then (pins s)(STATUS_LED := LOW, RELAY_PIN := LOW) else pins s)"
  by (auto simp add: auto_off_def Let_def digitalWrite_def lnot_def)

lemma loop_storedTime: "storedTime (loop inp s) = storedTime (increase_timeout inp s)"
  by (simp add: loop_def auto_off_fields receive_fields)

lemma loop_timeMs: "timeMs (loop inp s) = timeMs (increase_timeout inp s)"
  by (simp add: loop_def auto_off_fields receive_fields)

lemma loop_read_time:
  "(EEPROM_readAnything ADDR_TIME (eeprom (loop inp s)) :: uint) =
   EEPROM_readAnything ADDR_TIME (eeprom (increase_timeout inp s))"
  by (simp add: loop_def auto_off_fields receive_fields)

lemma plus_1000_no_wrap:
  "unat (t :: uint) + 1000 < 65536 \<Longrightarrow> unat (t + 1000) = unat t + 1000"
  by (simp add: unat_word_ariths)

text \<open>
  A timeout in range is far from the point where the 16-bit sum wraps; beyond that
  point the sum is taken modulo \<open>2^16\<close> before it is compared with the ceiling.
\<close>

lemma valid_timeout_no_wrap: "valid_timeout s \<Longrightarrow> unat (storedTime s) + 1000 < 65536"
  by (simp add: valid_timeout_def MAX_TIME_def word_le_nat_alt)

lemma timeout_increase_wraps: "storedTime (saveTimeout (65000 + 1000) s) = 464"
  by (simp add: saveTimeout_fields MAX_TIME_def)

subsection \<open>Startup\<close>

text \<open>
  C4: at startup, for every persisted Relay Timeout \<open>v\<close> read from the byte store, the
  effective timeout is the default 5000 if \<open>v = 0\<close> or \<open>v > 10000\<close>, and \<open>v\<close> itself
  otherwise; the Learned Code is the persisted one, and the byte store, the two
  timestamps and the Relay State are left as they were.
\<close>

theorem setup_corrects_timeout:
  "storedTime (setup_sketch s) =
     (if (EEPROM_readAnything ADDR_TIME (eeprom s) :: uint) = 0
         \<or> 10000 < (EEPROM_readAnything ADDR_TIME (eeprom s) :: uint)
      then 5000 else EEPROM_readAnything ADDR_TIME (eeprom s)) \<and>
   storedCode (setup_sketch s) = EEPROM_readAnything ADDR_CODE (eeprom s) \<and>
   eeprom (setup_sketch s) = eeprom s \<and>
   timeMs (setup_sketch s) = timeMs s \<and> codeMs (setup_sketch s) = codeMs s \<and>
   relayStatus (setup_sketch s) = relayStatus s"
  by (simp add: setup_fields Let_def MAX_TIME_def DEFAULT_TIME_def)

lemma read_blank: "(EEPROM_readAnything ADDR_TIME (eeprom blank) :: uint) = 65535"
  by (simp add: EEPROM_readAnything_def blank_def upt2)

text \<open>An erased byte store reads as 65535, which is replaced by the default.\<close>

theorem setup_corrects_timeout_witness:
  "storedTime (setup_sketch blank) = 5000"
  using setup_corrects_timeout [of blank] by (simp add: read_blank)

subsection \<open>The timeout button\<close>

text \<open>
  C3: for every current Relay Timeout \<open>t\<close>, a timeout increase (the button reads
  pressed and more than 1000 ms have passed since the last adjust timestamp) stores
  \<open>t + 1000\<close> if that does not exceed 10000 and exactly 1000 otherwise; the value is
  written to the byte store and is the timeout in memory. The sum is a 16-bit one in
  the source, so the statement is for the values of \<open>t\<close> up to 64535, which the sum does
  not wrap; a Relay Timeout in range is at most 10000.
\<close>

theorem timeout_increase_stores:
  assumes "time_pin inp = LOW" and "1000 < millis_229 inp - timeMs s"
    and "unat (storedTime s) + 1000 < 65536"
  shows "unat (storedTime (loop inp s)) =
           (if unat (storedTime s) + 1000 \<le> 10000 then unat (storedTime s) + 1000 else 1000) \<and>
         EEPROM_readAnything ADDR_TIME (eeprom (loop inp s)) = storedTime (loop inp s)"
proof -
  have "MAX_TIME < storedTime s + 1000 \<longleftrightarrow> 10000 < unat (storedTime s) + 1000"
    using plus_1000_no_wrap [OF assms(3)] by (simp add: word_less_nat_alt MAX_TIME_def)
  then show ?thesis
    using assms plus_1000_no_wrap [OF assms(3)]
    by (simp add: loop_storedTime loop_read_time increase_timeout_fields read_write_uint)
qed

text \<open>From 9500 one increase gives 10500, above the ceiling: 1000 is stored.\<close>

theorem timeout_increase_stores_witness:
  "time_pin pressed = LOW \<and> 1000 < millis_229 pressed - timeMs (idle\<lparr>storedTime := 9500\<rparr>) \<and>
   unat (storedTime (idle\<lparr>storedTime := 9500\<rparr>)) + 1000 < 65536 \<and>
   unat (storedTime (loop pressed (idle\<lparr>storedTime := 9500\<rparr>))) = 1000 \<and>
   EEPROM_readAnything ADDR_TIME (eeprom (loop pressed (idle\<lparr>storedTime := 9500\<rparr>))) =
     storedTime (loop pressed (idle\<lparr>storedTime := 9500\<rparr>))"
proof -
  have h: "time_pin pressed = LOW" "1000 < millis_229 pressed - timeMs (idle\<lparr>storedTime := 9500\<rparr>)"
    "unat (storedTime (idle\<lparr>storedTime := 9500\<rparr>)) + 1000 < 65536"
    by (simp_all add: pressed_def quiet_def idle_def LOW_def)
  show ?thesis
    using timeout_increase_stores [OF h] h by simp
qed

text \<open>
  C7, as the code has it: the last adjust timestamp is set to the clock in every pass
  in which the timeout button reads pressed, whether or not the increase fired, and is
  left as it was in a pass in which the button reads released. The 1000 ms window is
  thus measured from the last pass that saw the button pressed.
\<close>

theorem last_adjust_updated_when_pressed:
  "timeMs (loop inp s) = (if time_pin inp = LOW then millis_233 inp else timeMs s)"
  by (simp add: loop_timeMs increase_timeout_fields)

theorem last_adjust_updated_when_pressed_witness:
  "timeMs (loop pressed idle) = 10000 \<and> timeMs (loop quiet idle) = 0"
  using last_adjust_updated_when_pressed [of pressed idle]
    last_adjust_updated_when_pressed [of quiet idle]
  by (simp add: pressed_def quiet_def idle_def LOW_def)

text \<open>
  With the button released the timestamp of a pass stays at its old value, which is
  not the reading of the clock.
\<close>

theorem last_adjust_not_updated_counterexample:
  "timeMs (loop quiet idle) = timeMs idle \<and> timeMs idle \<noteq> millis_233 quiet"
  by (simp add: loop_timeMs increase_timeout_fields quiet_def idle_def LOW_def)

lemma led_pulses_blink: "led_pulses (trace (blink s)) = led_pulses (trace s) + 1"
  by (simp add: led_pulses_def blink_fields HIGH_def LOW_def)

text \<open>
  C8, as the code has it: saving a timeout above the 10000 ms ceiling switches the
  indicator on twice, saving one within the ceiling switches it on once, so the reset
  and the plain increase are told apart by the number of pulses.
\<close>

theorem timeout_blink_count:
  "led_pulses (trace (saveTimeout newTime s)) =
     led_pulses (trace s) + (if MAX_TIME < newTime then 2 else 1)"
  by (simp add: led_pulses_def saveTimeout_fields HIGH_def LOW_def)

theorem timeout_blink_count_witness:
  "led_pulses (trace (saveTimeout 10500 idle)) = 2 \<and> led_pulses (trace (saveTimeout 6000 idle)) = 1"
  using timeout_blink_count [of 10500 idle] timeout_blink_count [of 6000 idle]
  by (simp add: MAX_TIME_def idle_def led_pulses_def)

text \<open>An increase from 9500 gives two pulses, an increase from 1000 gives one.\<close>

theorem ceiling_blinks_twice_counterexample:
  "led_pulses (trace (saveTimeout (9500 + 1000) idle)) = 2 \<and>
   led_pulses (trace (saveTimeout (1000 + 1000) idle)) = 1"
  by (simp add: led_pulses_def saveTimeout_fields HIGH_def LOW_def MAX_TIME_def idle_def)

subsection \<open>Learning and matching\<close>

lemma learn_overwrites_code:
  assumes "irrecv_decode inp = Some results" "code_pin inp = LOW"
  shows "storedCode (loop inp s) = decodeHash results \<and>
         EEPROM_readAnything ADDR_CODE (eeprom (loop inp s)) = decodeHash results"
  using assms
  by (simp add: loop_def auto_off_fields receive_def handle_code_fields read_write_ulong)

lemma learn_switches_relay_on:
  assumes "irrecv_decode inp = Some results" "code_pin inp = LOW"
    "relayStatus s = 0" "250 < millis_254 inp - codeMs s"
  shows "relayStatus (receive inp (increase_timeout inp s)) = 1 \<and>
         pins (receive inp (increase_timeout inp s)) RELAY_PIN = HIGH"
  using assms
  by (simp add: receive_def handle_code_fields increase_timeout_fields)

text \<open>
  C1 at a concrete pass: the controller is at rest with the relay off, the learn button
  is held and \<open>capture_A\<close> arrives. The Learned Code becomes the fingerprint of the
  capture and is in the byte store, and the relay is on at the end of the pass.
\<close>

theorem learn_turns_relay_on:
  "relayStatus idle = 0 \<and> pins idle RELAY_PIN = LOW \<and>
   storedCode (loop learn_A idle) = decodeHash capture_A \<and>
   EEPROM_readAnything ADDR_CODE (eeprom (loop learn_A idle)) = decodeHash capture_A \<and>
   relayStatus (loop learn_A idle) = 1 \<and>
   pins (loop learn_A idle) RELAY_PIN = HIGH"
proof -
  have inp: "irrecv_decode learn_A = Some capture_A" "code_pin learn_A = LOW"
    by (simp_all add: learn_A_def LOW_def)
  have st: "relayStatus idle = 0" "pins idle RELAY_PIN = LOW"
    by (simp_all add: idle_def LOW_def)
  have on: "relayStatus (receive learn_A (increase_timeout learn_A idle)) = 1"
    "pins (receive learn_A (increase_timeout learn_A idle)) RELAY_PIN = HIGH"
    using learn_switches_relay_on [OF inp st(1)] by (simp_all add: learn_A_def idle_def)
  have keep: "codeMs (receive learn_A (increase_timeout learn_A idle)) = 10400"
    by (simp add: receive_def handle_code_fields increase_timeout_fields learn_A_def LOW_def inp)
  have "relayStatus (loop learn_A idle) = 1" "pins (loop learn_A idle) RELAY_PIN = HIGH"
    using on keep by (simp_all add: loop_def auto_off_fields learn_A_def)
  then show ?thesis
    using learn_overwrites_code [OF inp] st by simp
qed

text \<open>
  C5, as the code has it: when the received fingerprint equals the Learned Code at the
  comparison (it was equal before, or the learn button has just stored it), the relay
  and the indicator are switched on exactly when the relay is off and more than 250 ms
  (unsigned difference) have passed since the last match. Otherwise the match switches
  nothing: the Relay State and the relay pin stay as they were, and the indicator keeps
  its level (LOW after the blink that acknowledges a learn). The pins and the calls of
  the pass are exactly those: the blink of a learn, the two writes that switch on, the
  debug lines and the resume. In both cases the last match timestamp becomes the clock.
\<close>

theorem match_switches_relay_on:
  assumes "irrecv_decode inp = Some results"
    and "code_pin inp = LOW \<or> storedCode s = decodeHash results"
  shows "codeMs (receive inp s) = millis_260 inp \<and>
         (if relayStatus s = 0 \<and> 250 < millis_254 inp - codeMs s
          then relayStatus (receive inp s) = 1 \<and> pins (receive inp s) RELAY_PIN = HIGH \<and>
               pins (receive inp s) STATUS_LED = HIGH
          else relayStatus (receive inp s) = relayStatus s \<and>
               pins (receive inp s) RELAY_PIN = pins s RELAY_PIN \<and>
               pins (receive inp s) STATUS_LED =
                 (if code_pin inp = LOW then LOW else pins s STATUS_LED)) \<and>
         pins (receive inp s) =
           (let p = (if code_pin inp = LOW then (pins s)(STATUS_LED := LOW) else pins s) in
            if relayStatus s = 0 \<and> 250 < millis_254 inp - codeMs s
            then p(RELAY_PIN := HIGH, STATUS_LED := HIGH) else p) \<and>
         trace (receive inp s) =
           trace s @ (if code_pin inp = LOW then blink_events else []) @
           (if relayStatus s = 0 \<and> 250 < millis_254 inp - codeMs s
            then [DigitalWrite RELAY_PIN HIGH, DigitalWrite STATUS_LED HIGH] else []) @
           [SerialPrint ''Stored Code: '', SerialPrintlnHex (decodeHash results),
            SerialPrint ''Received Code: '', SerialPrintlnHex (decodeHash results), Resume]"
proof -
  have r: "receive inp s = handle_code (decodeHash results) inp s"
    using assms(1) by (simp add: receive_def)
  have a: "codeMs (receive inp s) = millis_260 inp"
    using assms(2) by (auto simp add: r handle_code_fields)
  have b: "if relayStatus s = 0 \<and> 250 < millis_254 inp - codeMs s
          then relayStatus (receive inp s) = 1 \<and> pins (receive inp s) RELAY_PIN = HIGH \<and>
               pins (receive inp s) STATUS_LED = HIGH
          else relayStatus (receive inp s) = relayStatus s \<and>
               pins (receive inp s) RELAY_PIN = pins s RELAY_PIN \<and>
               pins (receive inp s) STATUS_LED =
                 (if code_pin inp = LOW then LOW else pins s STATUS_LED)"
    using assms(2) by (auto simp add: r handle_code_fields)
  have c: "pins (receive inp s) =
           (let p = (if code_pin inp = LOW then (pins s)(STATUS_LED := LOW) else pins s) in
            if relayStatus s = 0 \<and> 250 < millis_254 inp - codeMs s
            then p(RELAY_PIN := HIGH, STATUS_LED := HIGH) else p)"
    using assms(2) by (auto simp add: r handle_code_outputs(1) Let_def)
  have d: "trace (receive inp s) =
           trace s @ (if code_pin inp = LOW then blink_events else []) @
           (if relayStatus s = 0 \<and> 250 < millis_254 inp - codeMs s
            then [DigitalWrite RELAY_PIN HIGH, DigitalWrite STATUS_LED HIGH] else []) @
           [SerialPrint ''Stored Code: '', SerialPrintlnHex (decodeHash results),
            SerialPrint ''Received Code: '', SerialPrintlnHex (decodeHash results), Resume]"
    using assms(2) by (auto simp add: r handle_code_outputs(2))
  from a b c d show ?thesis by (intro conjI)
qed

text \<open>
  A match 10000 ms after the last one switches relay and indicator on; a match 250 ms
  after the last one leaves both off.
\<close>

theorem match_switches_relay_on_witness:
  "irrecv_decode send_A = Some capture_A \<and>
   (code_pin send_A = LOW \<or> storedCode (armed\<lparr>codeMs := 0\<rparr>) = decodeHash capture_A) \<and>
   codeMs (receive send_A (armed\<lparr>codeMs := 0\<rparr>)) = 10000 \<and>
   relayStatus (receive send_A (armed\<lparr>codeMs := 0\<rparr>)) = 1 \<and>
   pins (receive send_A (armed\<lparr>codeMs := 0\<rparr>)) RELAY_PIN = HIGH \<and>
   pins (receive send_A (armed\<lparr>codeMs := 0\<rparr>)) STATUS_LED = HIGH \<and>
   (code_pin send_A = LOW \<or> storedCode armed = decodeHash capture_A) \<and>
   relayStatus (receive send_A armed) = 0 \<and>
   pins (receive send_A armed) RELAY_PIN = LOW \<and>
   pins (receive send_A armed) STATUS_LED = LOW"
proof -
  have h: "irrecv_decode send_A = Some capture_A"
    "code_pin send_A = LOW \<or> storedCode (armed\<lparr>codeMs := 0\<rparr>) = decodeHash capture_A"
    "code_pin send_A = LOW \<or> storedCode armed = decodeHash capture_A"
    by (simp_all add: send_A_def armed_def)
  show ?thesis
    using match_switches_relay_on [OF h(1) h(2)] match_switches_relay_on [OF h(1) h(3)] h
    by (simp add: send_A_def quiet_def armed_def idle_def LOW_def HIGH_def)
qed

text \<open>
  At exactly 250 ms since the last match a matching transmission leaves the relay
  off.
\<close>

theorem relay_on_at_250ms_counterexample:
  "irrecv_decode send_A = Some capture_A \<and> storedCode armed = decodeHash capture_A \<and>
   relayStatus armed = 0 \<and> millis_254 send_A - codeMs armed = 250 \<and>
   relayStatus (receive send_A armed) = 0 \<and> pins (receive send_A armed) RELAY_PIN = LOW"
  by (simp add: receive_def handle_code_fields send_A_def quiet_def armed_def idle_def LOW_def)

subsection \<open>The relay switches off\<close>

text \<open>
  C6: in every pass in which, at the check of lines 275 to 281, the relay is on and the
  unsigned difference between the clock and the last match timestamp exceeds the Relay
  Timeout, the pass switches relay and indicator off, sets the Relay State to off and
  sets the last match timestamp to the clock; hence at the end of any pass the relay is
  never on with more than the Relay Timeout elapsed since the last match.
\<close>

theorem relay_auto_off:
  "(relayStatus (receive inp (increase_timeout inp s)) \<noteq> 0 \<and>
    ucast (storedTime (receive inp (increase_timeout inp s)))
      < millis_275 inp - codeMs (receive inp (increase_timeout inp s))
    \<longrightarrow> relayStatus (loop inp s) = 0 \<and> pins (loop inp s) RELAY_PIN = LOW \<and>
        pins (loop inp s) STATUS_LED = LOW \<and> codeMs (loop inp s) = millis_279 inp) \<and>
   \<not> (relayStatus (loop inp s) \<noteq> 0 \<and>
      ucast (storedTime (loop inp s)) < millis_275 inp - codeMs (loop inp s))"
  by (simp add: loop_def auto_off_fields)

text \<open>
  The difference is taken modulo \<open>2^32\<close>: a match 256 ms before the clock wraps is
  5256 ms old at the reading 5000.
\<close>

theorem relay_auto_off_witness:
  "relayStatus (receive late (increase_timeout late active_before_wrap)) \<noteq> 0 \<and>
   ucast (storedTime (receive late (increase_timeout late active_before_wrap)))
      < millis_275 late - codeMs (receive late (increase_timeout late active_before_wrap)) \<and>
   millis_275 late < codeMs active_before_wrap \<and>
   relayStatus (loop late active_before_wrap) = 0 \<and>
   pins (loop late active_before_wrap) RELAY_PIN = LOW \<and>
   pins (loop late active_before_wrap) STATUS_LED = LOW \<and>
   codeMs (loop late active_before_wrap) = 5001"
proof -
  have h: "relayStatus (receive late (increase_timeout late active_before_wrap)) \<noteq> 0 \<and>
   ucast (storedTime (receive late (increase_timeout late active_before_wrap)))
      < millis_275 late - codeMs (receive late (increase_timeout late active_before_wrap))"
    "millis_275 late < codeMs active_before_wrap" "millis_279 late = 5001"
    by (simp_all add: receive_def increase_timeout_fields late_def quiet_def
        active_before_wrap_def active_def idle_def LOW_def)
  show ?thesis
    using relay_auto_off [of late active_before_wrap] h by simp
qed

subsection \<open>The timeout stays in range\<close>

lemma valid_timeout_setup: "valid_timeout (setup_sketch s)"
  by (simp add: valid_timeout_def setup_fields Let_def MAX_TIME_def DEFAULT_TIME_def
      word_greater_zero_iff not_less)

lemma valid_timeout_loop: "valid_timeout s \<Longrightarrow> valid_timeout (loop inp s)"
proof -
  assume v: "valid_timeout s"
  then have b: "0 < unat (storedTime s)" "unat (storedTime s) \<le> 10000"
    by (simp_all add: valid_timeout_def MAX_TIME_def word_less_nat_alt word_le_nat_alt)
  then have nw: "unat (storedTime s + 1000) = unat (storedTime s) + 1000"
    by (intro plus_1000_no_wrap) simp
  show ?thesis
    using v b nw
    by (simp add: valid_timeout_def loop_storedTime increase_timeout_fields MAX_TIME_def
        word_less_nat_alt word_le_nat_alt)
qed

lemma valid_timeout_run: "valid_timeout s \<Longrightarrow> valid_timeout (run inps s)"
  unfolding run_def by (induction inps arbitrary: s) (simp_all add: valid_timeout_loop)

text \<open>
  C10: after the function \<open>setup\<close> the Relay Timeout in memory is in the range from 1
  to 10000, every pass of \<open>loop\<close> keeps it there, and so it is in range after any
  number of passes.
\<close>

theorem timeout_invariant:
  "valid_timeout (setup_sketch s0) \<and>
   (valid_timeout s \<longrightarrow> valid_timeout (loop inp s)) \<and>
   valid_timeout (run inps (setup_sketch s0))"
  by (simp add: valid_timeout_setup valid_timeout_loop valid_timeout_run)

theorem timeout_invariant_witness:
  "valid_timeout (idle\<lparr>storedTime := 9500\<rparr>) \<and> valid_timeout (loop pressed (idle\<lparr>storedTime := 9500\<rparr>)) \<and>
   valid_timeout (setup_sketch blank) \<and> valid_timeout (run [pressed, learn_A, quiet] (setup_sketch blank))"
proof -
  have h: "valid_timeout (idle\<lparr>storedTime := 9500\<rparr>)"
    by (simp add: valid_timeout_def idle_def MAX_TIME_def)
  show ?thesis
    using timeout_invariant [of blank "idle\<lparr>storedTime := 9500\<rparr>" pressed "[pressed, learn_A, quiet]"] h
    by simp
qed

end
